theory Spec2Isabelle
  imports Main "HOL-Library.Multiset"
begin

section \<open>File-system nodes\<close>

text \<open>
  A FileSystemNode as the file browser reads it. \<open>children\<close> is optional in the
  source (\<open>node?.children?.filter(...) || []\<close>): \<open>None\<close> is a node without the
  property. \<open>display\<close> is optional as well (\<open>entry.display || entry.name\<close>).
  \<open>date\<close> and \<open>size\<close> are read as \<open>f.date || 0\<close> and \<open>f.size || 0\<close>,
  so they are optional numbers. The \<open>refs\<close> URLs are not read by any function
  embedded here and are left out.
\<close>

datatype node = Node
  (node_name: string)
  (node_display: "string option")
  (node_origin: string)
  (node_path: string)
  (node_type: string)
  (node_children: "node list option")
  (node_size: "int option")
  (node_date: "int option")

datatype error = TypeError

subsection \<open>Recursive counters\<close>

text \<open>\<open>node?.children?.filter(p) || []\<close>\<close>

definition children_filter :: "(node \<Rightarrow> bool) \<Rightarrow> node \<Rightarrow> node list" where
  "children_filter p n = (case node_children n of None \<Rightarrow> [] | Some cs \<Rightarrow> filter p cs)"

lemma children_filter_smaller:
  "i \<in> set (children_filter p n) \<Longrightarrow> size i < size n"
proof (cases n)
  case (Node nm d og pth ty ch sz dt)
  assume mem: "i \<in> set (children_filter p n)"
  show ?thesis
  proof (cases ch)
    case None
    with Node mem show ?thesis by (simp add: children_filter_def)
  next
    case (Some cs)
    with Node mem have "i \<in> set cs" by (simp add: children_filter_def)
    then have "size i \<le> size_list size cs" by (induction cs) auto
    with Node Some show ?thesis by simp
  qed
qed

text \<open>
  \<open>folders.forEach((i) => (count += countFoldersRecursively(i)))\<close> starting from
  \<open>count = folders.length || 0\<close>.
\<close>

function countFoldersRecursively :: "node \<Rightarrow> nat" where
  "countFoldersRecursively n =
     (let folders = children_filter (\<lambda>i. node_type i = ''folder'') n
      in fold (\<lambda>i count. count + countFoldersRecursively i) folders (length folders))"
  by pat_completeness auto
termination
  by (relation "measure size") (auto simp: children_filter_smaller)

function countFilesRecursively :: "node \<Rightarrow> nat" where
  "countFilesRecursively n =
     (let files = children_filter (\<lambda>i. node_type i = ''machinecode'') n;
          folders = children_filter (\<lambda>i. node_type i = ''folder'') n
      in fold (\<lambda>i count. count + countFilesRecursively i) folders (length files))"
  by pat_completeness auto
termination
  by (relation "measure size") (auto simp: children_filter_smaller)

declare countFoldersRecursively.simps [simp del]
declare countFilesRecursively.simps [simp del]

subsection \<open>Reference tree walk\<close>

text \<open>
  The reference walk of the specification: the descendants of a node that are reachable
  through folder children, listed depth first. Every child is a descendant; the walk
  goes below a child only when the child is a folder.
\<close>

function descendants :: "node \<Rightarrow> node list" where
  "descendants n =
     concat (map (\<lambda>c. c # (if node_type c = ''folder'' then descendants c else []))
       (children_filter (\<lambda>_. True) n))"
  by pat_completeness auto
termination
  by (relation "measure size") (auto simp: children_filter_smaller)

declare descendants.simps [simp del]

definition count_descendants :: "string \<Rightarrow> node \<Rightarrow> nat" where
  "count_descendants ty n = length (filter (\<lambda>d. node_type d = ty) (descendants n))"

lemma fold_add_sum_list:
  "fold (\<lambda>i (count::nat). count + f i) xs k = k + sum_list (map f xs)"
  by (induction xs arbitrary: k) simp_all

lemma length_filter_concat_map:
  "length (filter P (concat (map g xs))) = (\<Sum>c \<leftarrow> xs. length (filter P (g c)))"
  by (induction xs) simp_all

lemma count_descendants_unfold:
  "count_descendants ty n =
     (\<Sum>c \<leftarrow> children_filter (\<lambda>_. True) n.
        (if node_type c = ty then 1 else 0)
        + (if node_type c = ''folder'' then count_descendants ty c else 0))"
proof -
  have "count_descendants ty n =
      length (filter (\<lambda>d. node_type d = ty)
        (concat (map (\<lambda>c. c # (if node_type c = ''folder'' then descendants c else []))
          (children_filter (\<lambda>_. True) n))))"
    unfolding count_descendants_def by (subst descendants.simps) simp
  also have "\<dots> = (\<Sum>c \<leftarrow> children_filter (\<lambda>_. True) n.
        length (filter (\<lambda>d. node_type d = ty)
          (c # (if node_type c = ''folder'' then descendants c else []))))"
    by (rule length_filter_concat_map)
  also have "\<dots> = (\<Sum>c \<leftarrow> children_filter (\<lambda>_. True) n.
        (if node_type c = ty then 1 else 0)
        + (if node_type c = ''folder'' then count_descendants ty c else 0))"
    by (rule arg_cong [where f = sum_list], rule map_cong)
       (simp_all add: count_descendants_def)
  finally show ?thesis .
qed

lemma sum_list_split_filter:
  "(\<Sum>c \<leftarrow> xs. (if p c then (1::nat) else 0) + (if q c then f c else 0))
     = length (filter p xs) + sum_list (map f (filter q xs))"
  by (induction xs) simp_all

lemma children_filter_True:
  "children_filter p n = filter p (children_filter (\<lambda>_. True) n)"
  by (simp add: children_filter_def split: option.splits)

text \<open>
  C4. On every tree, \<open>countFilesRecursively\<close> is the number of descendants reachable
  through folder children whose type is \<open>machinecode\<close>, and \<open>countFoldersRecursively\<close>
  is the number of such descendants whose type is \<open>folder\<close>, as the reference
  depth-first walk finds them.
\<close>

theorem count_recursively_matches_reference_walk:
  "countFilesRecursively n = count_descendants ''machinecode'' n \<and>
   countFoldersRecursively n = count_descendants ''folder'' n"
proof (induction n rule: measure_induct_rule [where f = size])
  case (less n)
  let ?all = "children_filter (\<lambda>_. True) n"
  let ?isf = "\<lambda>i. node_type i = ''folder''"
  have sub: "c \<in> set (filter ?isf ?all) \<Longrightarrow> size c < size n" for c
    using children_filter_smaller [of c "\<lambda>_. True" n] by simp
  have files: "map countFilesRecursively (filter ?isf ?all)
      = map (count_descendants ''machinecode'') (filter ?isf ?all)"
    by (rule map_cong) (simp_all add: less.IH sub)
  have folders: "map countFoldersRecursively (filter ?isf ?all)
      = map (count_descendants ''folder'') (filter ?isf ?all)"
    by (rule map_cong) (simp_all add: less.IH sub)
  have "countFilesRecursively n
      = length (filter (\<lambda>i. node_type i = ''machinecode'') ?all)
        + sum_list (map countFilesRecursively (filter ?isf ?all))"
    by (subst countFilesRecursively.simps)
       (simp add: Let_def fold_add_sum_list children_filter_True [symmetric])
  also have "\<dots> = count_descendants ''machinecode'' n"
    by (subst count_descendants_unfold [of "''machinecode''" n])
       (simp only: files sum_list_split_filter)
  finally have a: "countFilesRecursively n = count_descendants ''machinecode'' n" .
  have "countFoldersRecursively n
      = length (filter ?isf ?all)
        + sum_list (map countFoldersRecursively (filter ?isf ?all))"
    by (subst countFoldersRecursively.simps)
       (simp add: Let_def fold_add_sum_list children_filter_True [symmetric])
  also have "\<dots> = count_descendants ''folder'' n"
    by (subst count_descendants_unfold [of "''folder''" n])
       (simp only: folders sum_list_split_filter)
  finally have b: "countFoldersRecursively n = count_descendants ''folder'' n" .
  from a b show ?case ..
qed


section \<open>Path lookup\<close>

text \<open>
  \<open>path.split("/")\<close>: the pieces between the separators; the empty string splits into
  one empty piece.
\<close>

fun split_slash :: "string \<Rightarrow> string list" where
  "split_slash [] = [[]]"
| "split_slash (c # cs) =
     (if c = CHR ''/'' then [] # split_slash cs
      else (case split_slash cs of [] \<Rightarrow> [[c]] | s # ss \<Rightarrow> (c # s) # ss))"

text \<open>
  The loop of \<open>findFile\<close>:
  \<^verbatim>\<open>for (const segment of pathSegments) {
    if (!target) break;
    target = target.children.find((i) => i.name === segment);
  }\<close>
  \<open>target.children.find\<close> on a node without \<open>children\<close> is a call on \<open>undefined\<close>,
  which throws a TypeError.
\<close>

fun walk_segments :: "node option \<Rightarrow> string list \<Rightarrow> error + node option" where
  "walk_segments target [] = Inr target"
| "walk_segments None (segment # rest) = Inr None"
| "walk_segments (Some t) (segment # rest) =
     (case node_children t of
        None \<Rightarrow> Inl TypeError
      | Some cs \<Rightarrow> walk_segments (find (\<lambda>i. node_name i = segment) cs) rest)"

text \<open>
  \<open>findFile(origin, path)\<close> over the cached tree \<open>metadata.files\<close>. \<open>fdm\<close> is the
  build-time test \<open>process.env.PRINTER_TYPE === "fdm"\<close>. \<open>Inr None\<close> is the result
  \<open>null\<close>; an empty string is the falsy origin or path.
\<close>

definition findFile :: "bool \<Rightarrow> node list \<Rightarrow> string \<Rightarrow> string \<Rightarrow> error + node option" where
  "findFile fdm files origin path =
     (if origin = [] \<or> path = [] then Inr None
      else
        let target = find (\<lambda>i. node_origin i = origin) files;
            pathSegments =
              (if fdm then drop 1 (filter (\<lambda>i. i \<noteq> []) (split_slash path))
               else filter (\<lambda>i. i \<noteq> []) (split_slash path))
        in case walk_segments target pathSegments of
             Inl e \<Rightarrow> Inl e
           | Inr None \<Rightarrow> Inr None
           | Inr (Some t) \<Rightarrow> if node_type t = ''machinecode'' then Inr (Some t) else Inr None)"

text \<open>
  What the lookup does deliver: a missing target stays missing, a segment without a
  matching child below a node that has \<open>children\<close> ends the walk with \<open>null\<close>, and
  a node is returned only when its type is \<open>machinecode\<close>.
\<close>

lemma walk_segments_from_nothing: "walk_segments None segs = Inr None"
  by (cases segs) simp_all

lemma walk_segments_missing_child:
  "node_children t = Some cs \<Longrightarrow> find (\<lambda>i. node_name i = segment) cs = None
     \<Longrightarrow> walk_segments (Some t) (segment # rest) = Inr None"
  by (simp add: walk_segments_from_nothing)

lemma findFile_only_machinecode:
  "findFile fdm fs og p = Inr (Some t) \<Longrightarrow> node_type t = ''machinecode''"
  by (auto simp: findFile_def Let_def split: if_splits sum.splits option.splits)

text \<open>
  C1. A tree whose root folder \<open>local\<close> holds the file \<open>a.gcode\<close>, a leaf without
  \<open>children\<close>, and the path \<open>/a.gcode/b.gcode\<close>, whose second segment does not
  exist: the lookup does not return \<open>null\<close>, it throws.
\<close>

theorem findFile_throws_below_a_leaf:
  "findFile False
     [Node ''local'' (Some ''Local'') ''local'' ''/local'' ''folder''
        (Some [Node ''a.gcode'' (Some ''a.gcode'') ''local'' ''/a.gcode'' ''machinecode''
                 None (Some 10) (Some 1)])
        None None]
     ''local'' ''/a.gcode/b.gcode''
   = Inl TypeError"
  by (simp add: findFile_def)

section \<open>Sorting the file list\<close>

text \<open>
  \<open>metadata.sort\<close>: the current sort field and order, both strings in the source.
\<close>

record sort_t =
  sort_field :: string
  sort_order :: string

text \<open>\<open>f.date || 0\<close> and \<open>f.size || 0\<close>: a missing number and \<open>0\<close> both read as \<open>0\<close>.\<close>

definition or0 :: "int option \<Rightarrow> int" where
  "or0 v = (case v of None \<Rightarrow> 0 | Some x \<Rightarrow> x)"

text \<open>
  The argument of \<open>f1.display.localeCompare(f2.display)\<close>: \<open>localeCompare\<close> converts
  its argument to a string, so a missing \<open>display\<close> is compared as the text
  \<open>undefined\<close>.
\<close>

definition display_arg :: "node \<Rightarrow> string" where
  "display_arg f = (case node_display f of None \<Rightarrow> ''undefined'' | Some d \<Rightarrow> d)"

text \<open>
  The comparator inside \<open>sortFiles\<close>. \<open>lc a b\<close> is \<open>a.localeCompare(b)\<close>, the
  locale-dependent comparison of the runtime, taken as a parameter. The dates and sizes
  are read with a default; the display name of the first entry is not, and
  \<open>f1.display.localeCompare\<close> on an entry without \<open>display\<close> is a call on
  \<open>undefined\<close>, which throws a TypeError.
\<close>

definition compareFiles ::
  "(string \<Rightarrow> string \<Rightarrow> int) \<Rightarrow> sort_t \<Rightarrow> node \<Rightarrow> node \<Rightarrow> error + int" where
  "compareFiles lc srt f1 f2 =
     (if node_type f1 = ''folder'' \<and> node_type f2 \<noteq> ''folder'' then Inr (- 1)
      else if node_type f1 \<noteq> ''folder'' \<and> node_type f2 = ''folder'' then Inr 1
      else
        let ord = (if sort_order srt = ''desc'' then - 1 else 1) in
        if sort_field srt = ''date'' then
          (let ts1 = or0 (node_date f1); ts2 = or0 (node_date f2) in Inr (ord * (ts1 - ts2)))
        else if sort_field srt = ''size'' then
          (let s1 = or0 (node_size f1); s2 = or0 (node_size f2) in Inr (ord * (s1 - s2)))
        else
          (case node_display f1 of
             None \<Rightarrow> Inl TypeError
           | Some d1 \<Rightarrow> Inr (ord * lc d1 (display_arg f2))))"

text \<open>
  \<open>files.sort(compareFiles)\<close>: \<open>Array.prototype.sort\<close> is a stable sort. For a
  consistent comparator the stable sorted arrangement of a list is unique, so it is
  computed here by stable insertion, from left to right: each element is compared, as
  the first argument of the comparator, with elements that stand before it in the
  array (as the binary insertion of V8 does), and goes behind the last of them that it
  does not compare less than. \<open>insert_by cmp x acc\<close> inserts \<open>x\<close> into the elements
  before it, which are sorted and listed last first. An exception of the comparator ends
  the sort and leaves it.
\<close>

fun insert_by :: "('a \<Rightarrow> 'a \<Rightarrow> error + int) \<Rightarrow> 'a \<Rightarrow> 'a list \<Rightarrow> error + 'a list" where
  "insert_by cmp x [] = Inr [x]"
| "insert_by cmp x (y # ys) =
     (case cmp x y of
        Inl e \<Rightarrow> Inl e
      | Inr c \<Rightarrow>
          if c < 0 then
            (case insert_by cmp x ys of Inl e \<Rightarrow> Inl e | Inr zs \<Rightarrow> Inr (y # zs))
          else Inr (x # y # ys))"

fun sort_from :: "('a \<Rightarrow> 'a \<Rightarrow> error + int) \<Rightarrow> 'a list \<Rightarrow> 'a list \<Rightarrow> error + 'a list" where
  "sort_from cmp acc [] = Inr (rev acc)"
| "sort_from cmp acc (x # xs) =
     (case insert_by cmp x acc of Inl e \<Rightarrow> Inl e | Inr acc' \<Rightarrow> sort_from cmp acc' xs)"

definition array_sort :: "('a \<Rightarrow> 'a \<Rightarrow> error + int) \<Rightarrow> 'a list \<Rightarrow> error + 'a list" where
  "array_sort cmp xs = sort_from cmp [] xs"

definition sortFiles ::
  "(string \<Rightarrow> string \<Rightarrow> int) \<Rightarrow> sort_t \<Rightarrow> node list \<Rightarrow> error + node list" where
  "sortFiles lc srt files = array_sort (compareFiles lc srt) files"

subsection \<open>The ordering that the sort is meant to produce\<close>

text \<open>
  The comparison by kind and key as a total function, with a missing display name read
  as \<open>display_arg\<close> reads it on both sides, and a stable sort by a total comparator
  (insertion from the right, in front of the first element that is not less).
  \<open>compareFiles\<close> returns the value of \<open>compare_keys\<close> whenever it returns.
\<close>

definition compare_keys :: "(string \<Rightarrow> string \<Rightarrow> int) \<Rightarrow> sort_t \<Rightarrow> node \<Rightarrow> node \<Rightarrow> int" where
  "compare_keys lc srt f1 f2 =
     (if node_type f1 = ''folder'' \<and> node_type f2 \<noteq> ''folder'' then - 1
      else if node_type f1 \<noteq> ''folder'' \<and> node_type f2 = ''folder'' then 1
      else
        let ord = (if sort_order srt = ''desc'' then - 1 else 1) in
        if sort_field srt = ''date'' then ord * (or0 (node_date f1) - or0 (node_date f2))
        else if sort_field srt = ''size'' then ord * (or0 (node_size f1) - or0 (node_size f2))
        else ord * lc (display_arg f1) (display_arg f2))"

fun stable_insert :: "('a \<Rightarrow> 'a \<Rightarrow> int) \<Rightarrow> 'a \<Rightarrow> 'a list \<Rightarrow> 'a list" where
  "stable_insert cmp x [] = [x]"
| "stable_insert cmp x (y # ys) =
     (if cmp x y \<le> 0 then x # y # ys else y # stable_insert cmp x ys)"

definition stable_sort :: "('a \<Rightarrow> 'a \<Rightarrow> int) \<Rightarrow> 'a list \<Rightarrow> 'a list" where
  "stable_sort cmp xs = foldr (stable_insert cmp) xs []"

lemma compareFiles_returns_compare_keys:
  "compareFiles lc srt f1 f2 = Inr c \<Longrightarrow> c = compare_keys lc srt f1 f2"
  by (auto simp: compareFiles_def compare_keys_def display_arg_def Let_def
      split: if_splits option.splits)

lemma compareFiles_with_display:
  "sort_field srt = ''date'' \<or> sort_field srt = ''size'' \<or> node_display f1 \<noteq> None
     \<Longrightarrow> compareFiles lc srt f1 f2 = Inr (compare_keys lc srt f1 f2)"
  by (auto simp: compareFiles_def compare_keys_def display_arg_def Let_def)

lemma set_stable_insert: "set (stable_insert cmp x ys) = insert x (set ys)"
  by (induction ys) auto

lemma set_fold_stable_insert:
  "set (fold (stable_insert cmp) xs acc) = set xs \<union> set acc"
  by (induction xs arbitrary: acc) (auto simp: set_stable_insert)

text \<open>
  Where the comparator returns on every pair it is given, the sort returns, and what it
  returns is the stable sort by the negated comparator of the reversed list, reversed.
\<close>

lemma insert_by_returns:
  "(\<And>y. y \<in> set acc \<Longrightarrow> cmp x y = Inr (p x y))
     \<Longrightarrow> insert_by cmp x acc = Inr (stable_insert (\<lambda>a b. - p a b) x acc)"
  by (induction acc) simp_all

lemma sort_from_returns:
  "(\<And>a b. a \<in> set xs \<union> set acc \<Longrightarrow> b \<in> set xs \<union> set acc \<Longrightarrow> cmp a b = Inr (p a b))
     \<Longrightarrow> sort_from cmp acc xs = Inr (rev (fold (stable_insert (\<lambda>a b. - p a b)) xs acc))"
proof (induction xs arbitrary: acc)
  case Nil
  show ?case by simp
next
  case (Cons x xs)
  have ins: "insert_by cmp x acc = Inr (stable_insert (\<lambda>a b. - p a b) x acc)"
    by (rule insert_by_returns) (simp add: Cons.prems)
  have "sort_from cmp (stable_insert (\<lambda>a b. - p a b) x acc) xs
      = Inr (rev (fold (stable_insert (\<lambda>a b. - p a b)) xs
               (stable_insert (\<lambda>a b. - p a b) x acc)))"
    by (rule Cons.IH) (auto simp: set_stable_insert intro: Cons.prems)
  with ins show ?case by simp
qed

lemma array_sort_returns:
  assumes "\<And>a b. a \<in> set xs \<Longrightarrow> b \<in> set xs \<Longrightarrow> cmp a b = Inr (p a b)"
  shows "array_sort cmp xs = Inr (rev (stable_sort (\<lambda>a b. - p a b) (rev xs)))"
proof -
  have "sort_from cmp [] xs = Inr (rev (fold (stable_insert (\<lambda>a b. - p a b)) xs []))"
    by (rule sort_from_returns) (simp add: assms)
  then show ?thesis
    by (simp add: array_sort_def stable_sort_def foldr_conv_fold)
qed

text \<open>
  A consistent comparator in the sense of the language standard, on the signs of its
  results: swapping the arguments swaps the sign, and \<open>\<le> 0\<close> is transitive.
\<close>

definition consistent :: "('a \<Rightarrow> 'a \<Rightarrow> int) \<Rightarrow> bool" where
  "consistent cmp \<longleftrightarrow>
     (\<forall>a b. (cmp a b < 0) = (0 < cmp b a)) \<and>
     (\<forall>a b c. cmp a b \<le> 0 \<and> cmp b c \<le> 0 \<longrightarrow> cmp a c \<le> 0)"

lemma consistentD1: "consistent cmp \<Longrightarrow> (cmp a b < 0) = (0 < cmp b a)"
  by (simp add: consistent_def)

lemma consistentD2: "consistent cmp \<Longrightarrow> cmp a b \<le> 0 \<Longrightarrow> cmp b c \<le> 0 \<Longrightarrow> cmp a c \<le> 0"
  unfolding consistent_def by blast

lemma consistent_zero_sym: "consistent cmp \<Longrightarrow> cmp a b = 0 \<Longrightarrow> cmp b a = 0"
  using consistentD1 [of cmp a b] consistentD1 [of cmp b a] by linarith

lemma consistent_total: "consistent cmp \<Longrightarrow> cmp a b \<le> 0 \<or> cmp b a \<le> 0"
  using consistentD1 [of cmp a b] by linarith

lemma consistent_gt: "consistent cmp \<Longrightarrow> 0 < cmp a b \<Longrightarrow> cmp b a \<le> 0"
  using consistentD1 [of cmp b a] by linarith

lemma mset_stable_insert: "mset (stable_insert cmp x ys) = add_mset x (mset ys)"
  by (induction ys) simp_all

lemma mset_stable_sort: "mset (stable_sort cmp xs) = mset xs"
  by (induction xs) (simp_all add: stable_sort_def mset_stable_insert)

lemma sorted_stable_insert:
  assumes "consistent cmp" and "sorted_wrt (\<lambda>a b. cmp a b \<le> 0) ys"
  shows "sorted_wrt (\<lambda>a b. cmp a b \<le> 0) (stable_insert cmp x ys)"
  using assms(2)
proof (induction ys)
  case Nil
  show ?case by simp
next
  case (Cons y ys)
  show ?case
  proof (cases "cmp x y \<le> 0")
    case True
    have "cmp x z \<le> 0" if "z \<in> set ys" for z
      using Cons.prems that True consistentD2 [OF assms(1), of x y z] by simp
    with True Cons.prems show ?thesis by simp
  next
    case False
    then have "cmp y x \<le> 0" using consistent_gt [OF assms(1), of x y] by simp
    with False Cons show ?thesis by (auto simp: set_stable_insert)
  qed
qed

lemma sorted_stable_sort:
  "consistent cmp \<Longrightarrow> sorted_wrt (\<lambda>a b. cmp a b \<le> 0) (stable_sort cmp xs)"
  by (induction xs) (simp_all add: stable_sort_def sorted_stable_insert)

lemma filter_stable_insert_other:
  "\<not> P x \<Longrightarrow> filter P (stable_insert cmp x ys) = filter P ys"
  by (induction ys) simp_all

lemma filter_stable_insert_equal:
  assumes "consistent cmp" and "cmp k x = 0"
  shows "filter (\<lambda>y. cmp k y = 0) (stable_insert cmp x ys) = x # filter (\<lambda>y. cmp k y = 0) ys"
proof (induction ys)
  case Nil
  from assms(2) show ?case by simp
next
  case (Cons y ys)
  show ?case
  proof (cases "cmp x y \<le> 0")
    case True
    with assms(2) show ?thesis by simp
  next
    case False
    have "cmp k y \<noteq> 0"
    proof
      assume "cmp k y = 0"
      moreover have "cmp x k = 0" using consistent_zero_sym [OF assms] .
      ultimately have "cmp x y \<le> 0" using consistentD2 [OF assms(1), of x k y] by simp
      with False show False by simp
    qed
    with False Cons.IH show ?thesis by simp
  qed
qed

lemma stable_sort_stable:
  assumes "consistent cmp"
  shows "filter (\<lambda>y. cmp k y = 0) (stable_sort cmp xs) = filter (\<lambda>y. cmp k y = 0) xs"
proof (induction xs)
  case Nil
  show ?case by (simp add: stable_sort_def)
next
  case (Cons x xs)
  have step: "stable_sort cmp (x # xs) = stable_insert cmp x (stable_sort cmp xs)"
    by (simp add: stable_sort_def)
  show ?case
  proof (cases "cmp k x = 0")
    case True
    then show ?thesis
      by (simp add: step filter_stable_insert_equal [OF assms] Cons.IH)
  next
    case False
    then show ?thesis
      by (simp add: step filter_stable_insert_other Cons.IH)
  qed
qed

lemma consistent_ge_iff: "consistent cmp \<Longrightarrow> (0 \<le> cmp a b) = (cmp b a \<le> 0)"
  using consistentD1 [of cmp a b] by auto

lemma consistent_trans_ge:
  "consistent cmp \<Longrightarrow> 0 \<le> cmp a b \<Longrightarrow> 0 \<le> cmp b c \<Longrightarrow> 0 \<le> cmp a c"
  using consistentD2 [of cmp c b a] by (simp add: consistent_ge_iff)

lemma negated_swap:
  assumes "consistent cmp"
  shows "(- cmp a b < 0) = (0 < - cmp b a)"
  using consistentD1 [OF assms, of b a] by linarith

lemma negated_trans:
  assumes "consistent cmp"
  shows "- cmp a b \<le> 0 \<Longrightarrow> - cmp b d \<le> 0 \<Longrightarrow> - cmp a d \<le> 0"
  using consistent_trans_ge [OF assms, of a b d] by linarith

lemma consistent_negated:
  assumes "consistent cmp"
  shows "consistent (\<lambda>a b. - cmp a b)"
  unfolding consistent_def
proof (intro conjI allI impI)
  fix a b
  show "(- cmp a b < 0) = (0 < - cmp b a)"
    by (rule negated_swap [OF assms])
next
  fix a b d
  assume "- cmp a b \<le> 0 \<and> - cmp b d \<le> 0"
  then have "- cmp a b \<le> 0" and "- cmp b d \<le> 0" by blast+
  then show "- cmp a d \<le> 0"
    by (rule negated_trans [OF assms])
qed

lemma compare_keys_consistent:
  assumes "consistent lc"
  shows "consistent (compare_keys lc srt)"
  unfolding consistent_def
proof (intro conjI allI impI)
  fix a b
  show "(compare_keys lc srt a b < 0) = (0 < compare_keys lc srt b a)"
    using consistentD1 [OF assms, of "display_arg a" "display_arg b"]
      consistentD1 [OF assms, of "display_arg b" "display_arg a"]
    by (auto simp: compare_keys_def Let_def)
next
  fix a b c
  assume "compare_keys lc srt a b \<le> 0 \<and> compare_keys lc srt b c \<le> 0"
  then show "compare_keys lc srt a c \<le> 0"
    using consistentD2 [OF assms, of "display_arg a" "display_arg b" "display_arg c"]
      consistent_trans_ge [OF assms, of "display_arg a" "display_arg b" "display_arg c"]
    by (auto simp: compare_keys_def Let_def split: if_splits)
qed

lemma folders_first:
  "compare_keys lc srt a b \<le> 0 \<Longrightarrow> \<not> (node_type a \<noteq> ''folder'' \<and> node_type b = ''folder'')"
  by (auto simp: compare_keys_def)

lemma same_kind_order:
  assumes "compare_keys lc srt a b \<le> 0"
    and "(node_type a = ''folder'') = (node_type b = ''folder'')"
  shows "(sort_field srt = ''date'' \<longrightarrow>
            (if sort_order srt = ''desc'' then or0 (node_date b) \<le> or0 (node_date a)
             else or0 (node_date a) \<le> or0 (node_date b))) \<and>
         (sort_field srt \<noteq> ''date'' \<and> sort_field srt = ''size'' \<longrightarrow>
            (if sort_order srt = ''desc'' then or0 (node_size b) \<le> or0 (node_size a)
             else or0 (node_size a) \<le> or0 (node_size b))) \<and>
         (sort_field srt \<noteq> ''date'' \<and> sort_field srt \<noteq> ''size'' \<longrightarrow>
            (if sort_order srt = ''desc'' then 0 \<le> lc (display_arg a) (display_arg b)
             else lc (display_arg a) (display_arg b) \<le> 0))"
  using assms by (auto simp: compare_keys_def Let_def split: if_splits)

text \<open>
  When every entry has a display name, or the field is \<open>date\<close> or \<open>size\<close>, and
  \<open>localeCompare\<close> is consistent, \<open>sortFiles\<close> returns, and it returns a
  permutation of its input in which no non-folder stands before a folder, whatever the
  sort field; in which two entries that are both folders or both not folders stand in
  the order of the current field (date, size, else display name), ascending unless the
  order is \<open>desc\<close>; and in which entries that the comparator ranks equal keep the
  relative order they had in the input (stability).
\<close>

lemma sortFiles_ordered_when_it_returns:
  assumes "consistent lc"
    and "sort_field srt = ''date'' \<or> sort_field srt = ''size'' \<or>
         list_all (\<lambda>f. node_display f \<noteq> None) fs"
  shows "\<exists>r. sortFiles lc srt fs = Inr r \<and>
     mset r = mset fs \<and>
     sorted_wrt (\<lambda>a b. \<not> (node_type a \<noteq> ''folder'' \<and> node_type b = ''folder'')) r \<and>
     sorted_wrt (\<lambda>a b. (node_type a = ''folder'') = (node_type b = ''folder'') \<longrightarrow>
        (sort_field srt = ''date'' \<longrightarrow>
            (if sort_order srt = ''desc'' then or0 (node_date b) \<le> or0 (node_date a)
             else or0 (node_date a) \<le> or0 (node_date b))) \<and>
        (sort_field srt \<noteq> ''date'' \<and> sort_field srt = ''size'' \<longrightarrow>
            (if sort_order srt = ''desc'' then or0 (node_size b) \<le> or0 (node_size a)
             else or0 (node_size a) \<le> or0 (node_size b))) \<and>
        (sort_field srt \<noteq> ''date'' \<and> sort_field srt \<noteq> ''size'' \<longrightarrow>
            (if sort_order srt = ''desc'' then 0 \<le> lc (display_arg a) (display_arg b)
             else lc (display_arg a) (display_arg b) \<le> 0))) r \<and>
     (\<forall>k. filter (\<lambda>y. compare_keys lc srt k y = 0) r
          = filter (\<lambda>y. compare_keys lc srt k y = 0) fs)"
proof -
  let ?n = "\<lambda>a b. - compare_keys lc srt a b"
  let ?s = "stable_sort ?n (rev fs)"
  have ret: "sortFiles lc srt fs = Inr (rev ?s)"
    unfolding sortFiles_def
  proof (rule array_sort_returns)
    fix a b
    assume "a \<in> set fs" and "b \<in> set fs"
    with assms(2) have "sort_field srt = ''date'' \<or> sort_field srt = ''size'' \<or>
        node_display a \<noteq> None"
      by (auto simp: list_all_iff)
    then show "compareFiles lc srt a b = Inr (compare_keys lc srt a b)"
      by (rule compareFiles_with_display)
  qed
  have c: "consistent (compare_keys lc srt)" by (rule compare_keys_consistent [OF assms(1)])
  have cn: "consistent ?n" by (rule consistent_negated [OF c])
  have "sorted_wrt (\<lambda>a b. ?n a b \<le> 0) ?s"
    by (rule sorted_stable_sort [OF cn])
  then have "sorted_wrt (\<lambda>a b. compare_keys lc srt b a \<le> 0) ?s"
    by (rule sorted_wrt_mono_rel [rotated]) (simp add: consistent_ge_iff [OF c])
  then have s: "sorted_wrt (\<lambda>a b. compare_keys lc srt a b \<le> 0) (rev ?s)"
    by (simp add: sorted_wrt_rev)
  have p1: "mset (rev ?s) = mset fs"
    by (simp add: mset_stable_sort)
  have p2: "sorted_wrt (\<lambda>a b. \<not> (node_type a \<noteq> ''folder'' \<and> node_type b = ''folder''))
      (rev ?s)"
    by (rule sorted_wrt_mono_rel [OF _ s]) (rule folders_first)
  have p3: "sorted_wrt (\<lambda>a b. (node_type a = ''folder'') = (node_type b = ''folder'') \<longrightarrow>
        (sort_field srt = ''date'' \<longrightarrow>
            (if sort_order srt = ''desc'' then or0 (node_date b) \<le> or0 (node_date a)
             else or0 (node_date a) \<le> or0 (node_date b))) \<and>
        (sort_field srt \<noteq> ''date'' \<and> sort_field srt = ''size'' \<longrightarrow>
            (if sort_order srt = ''desc'' then or0 (node_size b) \<le> or0 (node_size a)
             else or0 (node_size a) \<le> or0 (node_size b))) \<and>
        (sort_field srt \<noteq> ''date'' \<and> sort_field srt \<noteq> ''size'' \<longrightarrow>
            (if sort_order srt = ''desc'' then 0 \<le> lc (display_arg a) (display_arg b)
             else lc (display_arg a) (display_arg b) \<le> 0))) (rev ?s)"
    by (rule sorted_wrt_mono_rel [OF _ s]) (rule impI, rule same_kind_order)
  have p4: "filter (\<lambda>y. compare_keys lc srt k y = 0) (rev ?s)
          = filter (\<lambda>y. compare_keys lc srt k y = 0) fs" for k
  proof -
    have "filter (\<lambda>y. ?n k y = 0) ?s = filter (\<lambda>y. ?n k y = 0) (rev fs)"
      by (rule stable_sort_stable [OF cn])
    then have "filter (\<lambda>y. compare_keys lc srt k y = 0) ?s
        = filter (\<lambda>y. compare_keys lc srt k y = 0) (rev fs)"
      by simp
    then show ?thesis by (simp add: rev_filter [symmetric])
  qed
  from ret p1 p2 p3 p4 show ?thesis by blast
qed

text \<open>A concrete consistent comparator and some entries, for evaluation.\<close>

definition by_length :: "string \<Rightarrow> string \<Rightarrow> int" where
  "by_length a b = int (length a) - int (length b)"

lemma consistent_by_length: "consistent by_length"
  by (simp add: consistent_def by_length_def)

definition ex_dir :: node where
  "ex_dir = Node ''d'' (Some ''dir'') ''local'' ''/d'' ''folder'' (Some []) None None"

definition ex_f1 :: node where
  "ex_f1 = Node ''b.gcode'' (Some ''bb'') ''local'' ''/b.gcode'' ''machinecode'' None
             (Some 5) (Some 20)"

definition ex_f2 :: node where
  "ex_f2 = Node ''a.gcode'' (Some ''a'') ''local'' ''/a.gcode'' ''machinecode'' None
             (Some 7) (Some 10)"

lemma sortFiles_example:
  "sortFiles by_length \<lparr>sort_field = ''date'', sort_order = ''desc''\<rparr> [ex_f2, ex_f1, ex_dir]
     = Inr [ex_dir, ex_f1, ex_f2]"
  by (simp add: sortFiles_def array_sort_def compareFiles_def ex_dir_def ex_f1_def ex_f2_def
      or0_def)

lemma sortFiles_by_name_example:
  "sortFiles by_length \<lparr>sort_field = ''name'', sort_order = ''asc''\<rparr> [ex_f1, ex_dir, ex_f2]
     = Inr [ex_dir, ex_f2, ex_f1]"
  by (simp add: sortFiles_def array_sort_def compareFiles_def ex_dir_def ex_f1_def ex_f2_def
      display_arg_def by_length_def)

text \<open>
  With one display name missing, the outcome depends on which entry is the receiver of
  \<open>localeCompare\<close>: the later entry is, so the sort throws when the later of two
  files has no display name, and compares with the text \<open>undefined\<close> when the
  earlier one has none.
\<close>

lemma sortFiles_later_without_display:
  "sortFiles by_length \<lparr>sort_field = ''name'', sort_order = ''asc''\<rparr>
     [ex_f1, Node ''a.gcode'' None ''local'' ''/a.gcode'' ''machinecode'' None None None]
   = Inl TypeError"
  by (simp add: sortFiles_def array_sort_def compareFiles_def ex_f1_def)

lemma sortFiles_earlier_without_display:
  "sortFiles by_length \<lparr>sort_field = ''name'', sort_order = ''asc''\<rparr>
     [Node ''a.gcode'' None ''local'' ''/a.gcode'' ''machinecode'' None None None, ex_f1]
   = Inr [ex_f1, Node ''a.gcode'' None ''local'' ''/a.gcode'' ''machinecode'' None None None]"
  by (simp add: sortFiles_def array_sort_def compareFiles_def ex_f1_def display_arg_def
      by_length_def)

text \<open>
  C2. Two files without a \<open>display\<close> property, as \<open>entry.display || entry.name\<close>
  in \<open>redrawFiles\<close> and \<open>createFile\<close> provides for, sorted by name: whichever of
  the two the sort passes as \<open>f1\<close>, \<open>f1.display.localeCompare\<close> throws, and
  \<open>sortFiles\<close> returns no ordering.
\<close>

theorem sortFiles_throws_without_display:
  "sortFiles by_length \<lparr>sort_field = ''name'', sort_order = ''asc''\<rparr>
     [Node ''b.gcode'' None ''local'' ''/b.gcode'' ''machinecode'' None (Some 5) (Some 20),
      Node ''a.gcode'' None ''local'' ''/a.gcode'' ''machinecode'' None (Some 7) (Some 10)]
   = Inl TypeError"
  by (simp add: sortFiles_def array_sort_def compareFiles_def)

section \<open>Direct upload widget\<close>

text \<open>
  The module state of the direct upload widget: the variables \<open>isUploading\<close> and
  \<open>progress\<close>, the \<open>data-state\<close> attribute of the widget element (\<open>None\<close> when
  the page has no such element), the files whose \<open>arrayBuffer()\<close> promise is pending,
  the upload requests that have been sent and have not settled, and the notifications
  raised so far. A picked file has a \<open>name\<close> and possibly a \<open>display\<close> name.
\<close>

record upload_file =
  f_name :: string
  f_display :: "string option"

text \<open>
  \<open>HandleError r\<close> is the call \<open>handleError(r)\<close> of the shared error handler;
  the toasts carry their title and message.
\<close>

datatype 'r notification =
    HandleError 'r
  | ErrorToast string string
  | SuccessToast string string

record upload_job =
  job_url :: string
  job_file :: upload_file
  job_print :: bool

record 'r upload =
  isUploading :: bool
  progress :: int
  data_state :: "string option"
  reading :: "upload_job list"
  inflight :: "upload_job list"
  notifications :: "'r notification list"

text \<open>
  How an upload request settles: resolved, or rejected with a result that is an error
  object (\<open>Some r\<close>) or falsy (\<open>None\<close>). The events of the widget: a change event of
  the file input, with the input's files and the state of the start-print checkbox;
  the \<open>arrayBuffer()\<close> promise of a pending file resolving; a progress callback; an
  upload request settling.
\<close>

datatype 'r outcome = Resolved | Rejected "'r option"

datatype 'r event =
    Change "upload_file list" bool
  | BufferReady nat
  | ProgressChanged int
  | Settled nat "'r outcome"

definition setState :: "string \<Rightarrow> 'r upload \<Rightarrow> 'r upload" where
  "setState state u =
     u\<lparr>isUploading := (state = ''uploading''),
       data_state := (case data_state u of None \<Rightarrow> None | Some _ \<Rightarrow> Some state)\<rparr>"

definition setProgress :: "int \<Rightarrow> 'r upload \<Rightarrow> 'r upload" where
  "setProgress pct u = u\<lparr>progress := pct\<rparr>"

text \<open>\<open>reset\<close> also empties the file input, which is not part of this state.\<close>

definition reset :: "'r upload \<Rightarrow> 'r upload" where
  "reset u = setState ''choose'' (setProgress 0 u)"

definition notify :: "'r notification \<Rightarrow> 'r upload \<Rightarrow> 'r upload" where
  "notify n u = u\<lparr>notifications := notifications u @ [n]\<rparr>"

definition onProgressChanged :: "int \<Rightarrow> 'r upload \<Rightarrow> 'r upload" where
  "onProgressChanged pct u = setProgress pct (setState ''uploading'' u)"

text \<open>
  \<open>translate key args\<close> is the localisation lookup, taken as a parameter.
\<close>

definition onUploadSuccess ::
  "(string \<Rightarrow> (string \<times> string) list \<Rightarrow> string) \<Rightarrow> string \<Rightarrow> 'r upload \<Rightarrow> 'r upload" where
  "onUploadSuccess translate fileName u =
     (let title = translate ''ntf.success'' [];
          message = translate ''ntf.upld-suc'' [(''file_name'', fileName)]
      in notify (SuccessToast title message) u)"

definition onUploadError ::
  "(string \<Rightarrow> (string \<times> string) list \<Rightarrow> string) \<Rightarrow> string \<Rightarrow> 'r option \<Rightarrow> 'r upload \<Rightarrow> 'r upload" where
  "onUploadError translate fileName result u =
     (case result of
        Some r \<Rightarrow> notify (HandleError r) u
      | None \<Rightarrow>
          let title = translate ''ntf.error'' [];
              message = translate ''ntf.upld-unsuc'' [(''file_name'', fileName)]
          in notify (ErrorToast title message) u)"

text \<open>\<open>file.display || file.name\<close>\<close>

definition display_or_name :: "upload_file \<Rightarrow> string" where
  "display_or_name f =
     (case f_display f of None \<Rightarrow> f_name f | Some d \<Rightarrow> if d = [] then f_name f else d)"

text \<open>
  \<open>uploadFile\<close> only starts reading the file; everything else happens in the
  \<open>then\<close> callback of \<open>file.arrayBuffer()\<close>, which is \<open>bufferReady\<close> below.
\<close>

definition uploadFile :: "upload_file \<Rightarrow> string \<Rightarrow> string \<Rightarrow> bool \<Rightarrow> 'r upload \<Rightarrow> 'r upload" where
  "uploadFile f origin path print u =
     (let url = ''/api/v1/files/'' @ origin @ ''/'' @ path @ ''/'' @ f_name f
      in u\<lparr>reading := reading u @ [\<lparr>job_url = url, job_file = f, job_print = print\<rparr>]\<rparr>)"

text \<open>The \<open>onchange\<close> handler that \<open>initInput(origin, path, ...)\<close> installs.\<close>

definition onchange :: "string \<Rightarrow> string \<Rightarrow> upload_file list \<Rightarrow> bool \<Rightarrow> 'r upload \<Rightarrow> 'r upload" where
  "onchange origin path input_files checked u =
     (case input_files of
        [] \<Rightarrow> u
      | f # _ \<Rightarrow> if \<not> isUploading u then uploadFile f origin path checked u else u)"

text \<open>The list without its element at position \<open>i\<close>.\<close>

definition without :: "nat \<Rightarrow> 'a list \<Rightarrow> 'a list" where
  "without i xs = take i xs @ drop (Suc i) xs"

definition bufferReady :: "nat \<Rightarrow> 'r upload \<Rightarrow> 'r upload" where
  "bufferReady i u =
     (if i < length (reading u) then
        (setProgress 0 (setState ''uploading'' u))
          \<lparr>reading := without i (reading u), inflight := inflight u @ [reading u ! i]\<rparr>
      else u)"

text \<open>
  An upload request settling: \<open>.then(onUploadSuccess)\<close>, \<open>.catch(onUploadError)\<close>,
  \<open>.finally(reset)\<close>.
\<close>

definition settled ::
  "(string \<Rightarrow> (string \<times> string) list \<Rightarrow> string) \<Rightarrow> nat \<Rightarrow> 'r outcome \<Rightarrow> 'r upload \<Rightarrow> 'r upload" where
  "settled translate i out u =
     (if i < length (inflight u) then
        let fileName = display_or_name (job_file (inflight u ! i));
            u1 = (case out of
                    Resolved \<Rightarrow> onUploadSuccess translate fileName u
                  | Rejected result \<Rightarrow> onUploadError translate fileName result u)
        in (reset u1)\<lparr>inflight := without i (inflight u1)\<rparr>
      else u)"

fun step ::
  "(string \<Rightarrow> (string \<times> string) list \<Rightarrow> string) \<Rightarrow> string \<Rightarrow> string \<Rightarrow> 'r event \<Rightarrow> 'r upload \<Rightarrow> 'r upload" where
  "step translate origin path (Change input_files checked) u = onchange origin path input_files checked u"
| "step translate origin path (BufferReady i) u = bufferReady i u"
| "step translate origin path (ProgressChanged pct) u = onProgressChanged pct u"
| "step translate origin path (Settled i out) u = settled translate i out u"

definition run ::
  "(string \<Rightarrow> (string \<times> string) list \<Rightarrow> string) \<Rightarrow> string \<Rightarrow> string \<Rightarrow> 'r event list \<Rightarrow> 'r upload \<Rightarrow> 'r upload" where
  "run translate origin path evs u = fold (step translate origin path) evs u"

definition idle :: "'r upload" where
  "idle = \<lparr>isUploading = False, progress = 0, data_state = Some ''choose'',
           reading = [], inflight = [], notifications = []\<rparr>"

definition key_only :: "string \<Rightarrow> (string \<times> string) list \<Rightarrow> string" where
  "key_only k args = k"

definition file_a :: upload_file where "file_a = \<lparr>f_name = ''a.gcode'', f_display = None\<rparr>"
definition file_b :: upload_file where "file_b = \<lparr>f_name = ''b.gcode'', f_display = None\<rparr>"

text \<open>
  C8. \<open>onUploadError\<close> raises exactly one notification: the shared error handler
  with the result when a result object is present, otherwise the generic
  unsuccessful-upload toast made from the file name. So does every upload request that
  settles as rejected.
\<close>

theorem onUploadError_exactly_one:
  "notifications (onUploadError translate fileName result u)
     = notifications u @
       [case result of
          Some r \<Rightarrow> HandleError r
        | None \<Rightarrow> ErrorToast (translate ''ntf.error'' [])
                    (translate ''ntf.upld-unsuc'' [(''file_name'', fileName)])] \<and>
   (i < length (inflight u) \<longrightarrow>
      notifications (settled translate i (Rejected result) u)
        = notifications u @
          [case result of
             Some r \<Rightarrow> HandleError r
           | None \<Rightarrow> ErrorToast (translate ''ntf.error'' [])
                       (translate ''ntf.upld-unsuc''
                          [(''file_name'', display_or_name (job_file (inflight u ! i)))])])"
  by (simp add: onUploadError_def settled_def reset_def setState_def setProgress_def notify_def
      Let_def split: option.splits)

text \<open>
  C10. Two change events arrive before the first file has been read. \<open>isUploading\<close>
  is still false at the second one, so both files are read and both upload requests are
  sent; when the first request settles, \<open>isUploading\<close> becomes false while the second
  request is still in flight.
\<close>

theorem two_uploads_in_flight:
  "length (inflight (run key_only ''local'' '''' 
      [Change [file_a] False, Change [file_b] False, BufferReady 0, BufferReady 0]
      (idle :: unit upload))) = 2 \<and>
   (let u = run key_only ''local'' ''''
      [Change [file_a] False, Change [file_b] False, BufferReady 0, BufferReady 0,
       Settled 0 Resolved] (idle :: unit upload)
    in \<not> isUploading u \<and> length (inflight u) = 1)"
  by (simp add: run_def onchange_def uploadFile_def bufferReady_def settled_def reset_def
      setState_def setProgress_def notify_def onUploadSuccess_def idle_def without_def
      file_a_def file_b_def Let_def)

lemma guarded_change:
  "isUploading u \<Longrightarrow> onchange origin path input_files checked u = u"
  by (simp add: onchange_def split: list.splits)

theorem onUploadError_exactly_one_witness:
  "0 < length (inflight (run key_only ''local'' '''' [Change [file_a] False, BufferReady 0]
        (idle :: unit upload))) \<and>
   notifications (settled key_only 0 (Rejected None)
      (run key_only ''local'' '''' [Change [file_a] False, BufferReady 0] (idle :: unit upload)))
     = [ErrorToast ''ntf.error'' ''ntf.upld-unsuc'']"
  using onUploadError_exactly_one [of key_only "''a.gcode''" None
      "run key_only ''local'' '''' [Change [file_a] False, BufferReady 0] (idle :: unit upload)" 0]
  by (simp add: run_def onchange_def uploadFile_def bufferReady_def setState_def
      setProgress_def idle_def without_def file_a_def key_only_def Let_def)

section \<open>The metadata store and its pollers\<close>

text \<open>
  \<open>metadata.origin\<close> is \<open>null\<close> at page load, \<open>false\<close> once the selected storage
  has become unavailable, and otherwise the storage type that was selected.
  \<open>metadata.eTag\<close> is \<open>null\<close> or the tag of the last applied response; a response
  delivers its tag in \<open>result.eTag\<close>.
\<close>

datatype origin_val = ONull | OFalse | OStr string

datatype etag = ENull | EUndefined | ETag string

text \<open>\<open>!metadata.origin\<close> is the negation of this test.\<close>

definition truthy_origin :: "origin_val \<Rightarrow> bool" where
  "truthy_origin og = (case og of OStr k \<Rightarrow> k \<noteq> [] | _ \<Rightarrow> False)"

text \<open>The property key that \<open>metadata.storages[metadata.origin]\<close> looks up.\<close>

definition property_key :: "origin_val \<Rightarrow> string" where
  "property_key og = (case og of ONull \<Rightarrow> ''null'' | OFalse \<Rightarrow> ''false'' | OStr k \<Rightarrow> k)"

text \<open>The cached StorageInfo, and an entry of \<open>storage_list\<close> in a poll response.\<close>

record storageData =
  st_name :: string
  st_path :: string
  available :: bool
  readOnly :: bool
  freeSpace :: int
  totalSpace :: int

record entry =
  e_type :: string
  e_name :: string
  e_path :: string
  e_available :: bool
  e_ro :: bool
  e_free_space :: int
  e_total_space :: int

text \<open>
  What the pollers do outside the metadata object: calls that rebuild the page and
  requests that are sent. \<open>FileRequest url tag\<close> is
  \<open>getJson(url, {headers: {"If-None-Match": tag}})\<close>; \<open>StorageUpdate og details\<close> is
  \<open>storage.update(metadata.storages, og, selectStorage, details)\<close>; \<open>InitUpload\<close>
  records the arguments that \<open>initUpload\<close> hands to the upload widget.
\<close>

datatype effect =
    ClearFiles
  | RedrawFiles
  | InitUpload string "string list" bool
  | FileRequest string etag
  | StorageUpdate origin_val bool

text \<open>
  \<open>metadata.storages\<close> is an object used as a dictionary. It is kept here as the
  list of its properties in insertion order; \<open>object_keys\<close> below gives the order in
  which \<open>Object.keys\<close> lists them. (Storage types are taken not to be names of
  \<open>Object.prototype\<close>.)
\<close>

record metadata =
  origin :: origin_val
  current_path :: "string list"
  storages :: "(string \<times> storageData) list"
  files :: "node list"
  eTag :: etag
  sort_meta :: sort_t

text \<open>
  The metadata together with its surroundings: whether the page holds the element with
  id \<open>files\<close>, the effects so far, oldest first, and the exceptions that have left a
  callback without being caught.
\<close>

record world = metadata +
  filesNode :: bool
  effects :: "effect list"
  uncaught :: "error list"

definition emit :: "effect \<Rightarrow> world \<Rightarrow> world" where
  "emit e m = m\<lparr>effects := effects m @ [e]\<rparr>"

text \<open>\<open>metadata.storages[k] = v\<close>: an existing key keeps its place, a new key goes last.\<close>

fun assign :: "string \<Rightarrow> 'v \<Rightarrow> (string \<times> 'v) list \<Rightarrow> (string \<times> 'v) list" where
  "assign k v [] = [(k, v)]"
| "assign k v ((k', v') # kvs) =
     (if k' = k then (k, v) # kvs else (k', v') # assign k v kvs)"

text \<open>\<open>parts.join("/")\<close> and \<open>s.replace("/", "")\<close> (the first occurrence only).\<close>

fun join_slash :: "string list \<Rightarrow> string" where
  "join_slash [] = []"
| "join_slash [x] = x"
| "join_slash (x # y # ys) = x @ ''/'' @ join_slash (y # ys)"

fun replace_slash :: "string \<Rightarrow> string" where
  "replace_slash [] = []"
| "replace_slash (c # cs) = (if c = CHR ''/'' then cs else c # replace_slash cs)"

text \<open>
  \<open>clearFiles\<close> and \<open>redrawFiles\<close> rebuild the list element of the page. Only their
  calls are recorded, with one exception: \<open>redrawFiles\<close> iterates over
  \<open>sortFiles(metadata.files)\<close>, which sorts the cached array in place when the list
  element exists. When the comparator throws, the sort is abandoned before anything is
  written back, so the array stays as it was, and the exception leaves \<open>redrawFiles\<close>;
  it is the last call of the callback that is embedded here, so nothing else is skipped.
\<close>

definition clearFiles :: "world \<Rightarrow> world" where
  "clearFiles m = emit ClearFiles m"

definition redrawFiles :: "(string \<Rightarrow> string \<Rightarrow> int) \<Rightarrow> world \<Rightarrow> world" where
  "redrawFiles lc m =
     (let m1 = emit RedrawFiles m
      in if filesNode m1 then
           (case sortFiles lc (sort_meta m1) (files m1) of
              Inr ys \<Rightarrow> m1\<lparr>files := ys\<rparr>
            | Inl e \<Rightarrow> m1\<lparr>uncaught := uncaught m1 @ [e]\<rparr>)
         else m1)"

text \<open>
  \<open>initUpload\<close>, called by \<open>updateFiles\<close> only, after it has found the storage under
  the same key; the storage is passed in. \<open>getCurrentPath()\<close> is the current path
  without its first segment.
\<close>

definition initUpload :: "storageData \<Rightarrow> world \<Rightarrow> world" where
  "initUpload storage m =
     emit (InitUpload (replace_slash (st_path storage)) (drop 1 (current_path m))
             (readOnly storage)) m"

subsection \<open>File poller\<close>

text \<open>
  \<open>updateFiles(opts)\<close> up to and including the request. The first component is the
  \<open>lastETag\<close> that the response handler will compare against, \<open>None\<close> when the
  function has returned before sending a request. (The source's first guard tests
  the function \<open>selectStorage\<close>, which is always truthy, and never returns.)
\<close>

definition updateFiles_request :: "bool \<Rightarrow> world \<Rightarrow> etag option \<times> world" where
  "updateFiles_request force m =
     (case map_of (storages m) (property_key (origin m)) of
        None \<Rightarrow> (None, m)
      | Some storage \<Rightarrow>
          let path = join_slash (st_name storage # drop 1 (current_path m));
              url = ''/api/files/path/'' @ path;
              lastETag = (if force then ENull else eTag m);
              m1 = (if force then initUpload storage (m\<lparr>eTag := ENull\<rparr>) else m)
          in (Some lastETag, emit (FileRequest url lastETag) m1))"

text \<open>The response: \<open>result.eTag\<close> and \<open>result.data.files\<close>.\<close>

record files_result =
  r_eTag :: etag
  r_files :: "node list"

text \<open>The \<open>then\<close> callback of the request, with the \<open>lastETag\<close> it has captured.\<close>

definition updateFiles_then ::
  "(string \<Rightarrow> string \<Rightarrow> int) \<Rightarrow> etag \<Rightarrow> files_result \<Rightarrow> world \<Rightarrow> world" where
  "updateFiles_then lc lastETag result m =
     (if r_eTag result \<noteq> lastETag then
        redrawFiles lc (clearFiles (m\<lparr>eTag := r_eTag result, files := r_files result\<rparr>))
      else m)"

text \<open>
  One file poll: the request and, when a response arrives (\<open>Some result\<close>), its
  callback, with nothing else running in between.
\<close>

definition updateFiles ::
  "(string \<Rightarrow> string \<Rightarrow> int) \<Rightarrow> bool \<Rightarrow> files_result option \<Rightarrow> world \<Rightarrow> world" where
  "updateFiles lc force response m =
     (case updateFiles_request force m of
        (None, m1) \<Rightarrow> m1
      | (Some lastETag, m1) \<Rightarrow>
          (case response of
             None \<Rightarrow> m1
           | Some result \<Rightarrow> updateFiles_then lc lastETag result m1))"

subsection \<open>Storage selection and storage poller\<close>

text \<open>
  \<open>selectStorage(origin)\<close>. Its forced \<open>updateFiles\<close> sends the request; the response
  is handled later, by \<open>updateFiles_then\<close>.
\<close>

definition selectStorage :: "string \<Rightarrow> world \<Rightarrow> world" where
  "selectStorage og m =
     (let m1 = clearFiles m
      in case map_of (storages m1) og of
           None \<Rightarrow> m1
         | Some storage \<Rightarrow>
             if available storage then
               snd (updateFiles_request True
                      (clearFiles (m1\<lparr>origin := OStr og, current_path := [st_name storage]\<rparr>)))
             else m1)"

text \<open>
  The body of \<open>list.forEach\<close> in \<open>updateStorage\<close>, on the metadata and the two
  flags \<open>redrawTabs\<close> and \<open>redrawStorageDetails\<close>.
\<close>

definition storageData_of :: "entry \<Rightarrow> storageData" where
  "storageData_of e =
     \<lparr>st_name = e_name e, st_path = e_path e, available = e_available e,
      readOnly = e_ro e, freeSpace = e_free_space e, totalSpace = e_total_space e\<rparr>"

definition processEntry :: "entry \<Rightarrow> world \<times> bool \<times> bool \<Rightarrow> world \<times> bool \<times> bool" where
  "processEntry e = (\<lambda>(m, redrawTabs, redrawStorageDetails).
     let storageType = e_type e;
         storageData = storageData_of e
     in case map_of (storages m) storageType of
          Some storage \<Rightarrow>
            let changed = (available storage \<noteq> available storageData);
                m1 = (if changed \<and> origin m = OStr storageType \<and> \<not> available storageData
                      then m\<lparr>origin := OFalse\<rparr> else m);
                redrawTabs1 = (if changed then True else redrawTabs);
                redrawStorageDetails1 =
                  (if freeSpace storage \<noteq> freeSpace storageData \<and> origin m1 = OStr storageType
                   then True else redrawStorageDetails)
            in (m1\<lparr>storages := assign storageType storageData (storages m1)\<rparr>,
                redrawTabs1, redrawStorageDetails1)
        | None \<Rightarrow>
            (m\<lparr>storages := assign storageType storageData (storages m)\<rparr>, True, True))"

text \<open>
  \<open>Object.keys\<close> lists the keys that are array indices first, in ascending numeric
  order, and then the other keys in insertion order. An array index is the canonical
  decimal numeral (no sign, no leading zero) of a number below \<open>2^32 - 1\<close>.
\<close>

definition digit_value :: "char \<Rightarrow> nat" where
  "digit_value c = length (takeWhile (\<lambda>d. d \<noteq> c) ''0123456789'')"

definition decimal_value :: "string \<Rightarrow> nat" where
  "decimal_value k = foldl (\<lambda>n c. 10 * n + digit_value c) 0 k"

definition is_array_index :: "string \<Rightarrow> bool" where
  "is_array_index k =
     (case k of
        [] \<Rightarrow> False
      | c # cs \<Rightarrow>
          (c \<noteq> CHR ''0'' \<or> cs = []) \<and> list_all (\<lambda>d. digit_value d < 10) k \<and>
          decimal_value k < 4294967295)"

definition object_keys :: "(string \<times> 'v) list \<Rightarrow> string list" where
  "object_keys kvs =
     sort_key decimal_value (filter is_array_index (map fst kvs))
     @ filter (\<lambda>k. \<not> is_array_index k) (map fst kvs)"

text \<open>\<open>metadata.storages[k].available\<close>, for a key of the object.\<close>

definition cached_available :: "(string \<times> storageData) list \<Rightarrow> string \<Rightarrow> bool" where
  "cached_available kvs k = (case map_of kvs k of Some s \<Rightarrow> available s | None \<Rightarrow> False)"

text \<open>
  \<open>Object.keys(metadata.storages).find((storage) => metadata.storages[storage].available)\<close>
\<close>

definition first_available_key :: "world \<Rightarrow> string option" where
  "first_available_key m =
     find (cached_available (storages m)) (object_keys (storages m))"

text \<open>
  The \<open>then\<close> callback of \<open>updateStorage(opts)\<close>: \<open>redraw\<close> is \<open>!!opts.redraw\<close>,
  \<open>list\<close> is \<open>result.data?.storage_list\<close>.
\<close>

definition updateStorage :: "bool \<Rightarrow> entry list option \<Rightarrow> world \<Rightarrow> world" where
  "updateStorage redraw list m =
     (case (case list of
              None \<Rightarrow> (m, redraw, redraw)
            | Some es \<Rightarrow> fold processEntry es (m, redraw, redraw)) of
        (m1, redrawTabs, redrawStorageDetails) \<Rightarrow>
          let m2 = (if \<not> truthy_origin (origin m1) then
                      (case first_available_key m1 of
                         Some k \<Rightarrow> if k \<noteq> [] then selectStorage k m1 else m1
                       | None \<Rightarrow> m1)
                    else m1)
          in if redrawTabs then emit (StorageUpdate (origin m2) redrawStorageDetails) m2
             else m2)"

text \<open>
  The metadata at page load, in a build without \<open>WITH_NAME_SORTING_ONLY\<close>, on a page
  that shows the file list.
\<close>

definition initial :: world where
  "initial =
     \<lparr>origin = ONull, current_path = [], storages = [], files = [], eTag = ENull,
      sort_meta = \<lparr>sort_field = ''date'', sort_order = ''desc''\<rparr>,
      filesNode = True, effects = [], uncaught = []\<rparr>"

subsection \<open>Properties of the pollers\<close>


lemma keys_assign:
  "map fst (assign k v kvs)
     = (if k \<in> set (map fst kvs) then map fst kvs else map fst kvs @ [k])"
  by (induction kvs) force+

lemma distinct_assign:
  "distinct (map fst kvs) \<Longrightarrow> distinct (map fst (assign k v kvs))"
  by (simp add: keys_assign)

text \<open>
  The selected origin is unset (falsy), or it names a cached storage whose
  \<open>available\<close> flag is true.
\<close>

definition origin_available :: "world \<Rightarrow> bool" where
  "origin_available m =
     (case origin m of
        OStr k \<Rightarrow> k = [] \<or> (case map_of (storages m) k of Some s \<Rightarrow> available s | None \<Rightarrow> False)
      | _ \<Rightarrow> True)"



lemma more_processEntry:
  "filesNode (fst (processEntry e (m, a, b))) = filesNode m \<and>
   effects (fst (processEntry e (m, a, b))) = effects m \<and>
   files (fst (processEntry e (m, a, b))) = files m \<and>
   eTag (fst (processEntry e (m, a, b))) = eTag m \<and>
   current_path (fst (processEntry e (m, a, b))) = current_path m"
  by (simp add: processEntry_def Let_def split: option.splits)









lemma storages_emit [simp]: "storages (emit e m) = storages m"
  by (simp add: emit_def)

lemma origin_emit [simp]: "origin (emit e m) = origin m"
  by (simp add: emit_def)

lemma origin_available_emit [simp]: "origin_available (emit e m) = origin_available m"
  by (simp add: origin_available_def split: origin_val.splits)

lemma storages_updateFiles_request [simp]:
  "storages (snd (updateFiles_request force m)) = storages m"
  by (simp add: updateFiles_request_def initUpload_def Let_def split: option.splits)

lemma origin_updateFiles_request [simp]:
  "origin (snd (updateFiles_request force m)) = origin m"
  by (simp add: updateFiles_request_def initUpload_def Let_def split: option.splits)

lemma storages_selectStorage [simp]: "storages (selectStorage k m) = storages m"
  by (simp add: selectStorage_def clearFiles_def Let_def split: option.splits)







lemma distinct_fold_assign:
  "distinct (map fst kvs) \<Longrightarrow> distinct (map fst (fold (\<lambda>e. assign (e_type e) (g e)) es kvs))"
  by (induction es arbitrary: kvs) (simp_all add: distinct_assign)


lemma object_keys_no_index:
  "list_all (\<lambda>k. \<not> is_array_index k) (map fst kvs) \<Longrightarrow> object_keys kvs = map fst kvs"
  by (simp add: object_keys_def list_all_iff)


text \<open>
  C5. For a known storage whose cached \<open>available\<close> flag is false,
  \<open>selectStorage\<close> leaves the origin and the current path as they are and sends no
  file request: nothing changes except that the file list is cleared once.
\<close>

theorem selectStorage_unavailable_noop:
  assumes "map_of (storages m) og = Some s" and "\<not> available s"
  shows "origin (selectStorage og m) = origin m \<and>
         current_path (selectStorage og m) = current_path m \<and>
         effects (selectStorage og m) = effects m @ [ClearFiles] \<and>
         selectStorage og m = m\<lparr>effects := effects m @ [ClearFiles]\<rparr>"
  using assms by (simp add: selectStorage_def clearFiles_def emit_def Let_def)

text \<open>
  C3, as amended. The callback of a file poll compares the response's ETag with the
  ETag it has captured when the request was sent, whatever the metadata holds when the
  response arrives: when the two are equal the callback changes nothing, and when they
  differ it stores the response's ETag and files (which the redraw then sorts in place
  when the list element exists and the sort returns) and clears and redraws the list.
  An unforced request captures the stored ETag and changes neither \<open>eTag\<close> nor
  \<open>files\<close>. So a poll without the force flag whose callback runs right after its
  request leaves \<open>eTag\<close> and \<open>files\<close> as they are and calls neither
  \<open>clearFiles\<close> nor \<open>redrawFiles\<close> when the response carries the stored ETag,
  and applies the response when it carries another one.
\<close>

theorem updateFiles_applies_iff_captured_etag_differs:
  "(r_eTag r = lastETag \<longrightarrow> updateFiles_then lc lastETag r m = m) \<and>
   (r_eTag r \<noteq> lastETag \<longrightarrow>
      eTag (updateFiles_then lc lastETag r m) = r_eTag r \<and>
      files (updateFiles_then lc lastETag r m)
        = (if filesNode m then
             (case sortFiles lc (sort_meta m) (r_files r) of
                Inr ys \<Rightarrow> ys | Inl e \<Rightarrow> r_files r)
           else r_files r) \<and>
      effects (updateFiles_then lc lastETag r m) = effects m @ [ClearFiles, RedrawFiles]) \<and>
   (fst (updateFiles_request False m) = None \<or>
    fst (updateFiles_request False m) = Some (eTag m)) \<and>
   eTag (snd (updateFiles_request False m)) = eTag m \<and>
   files (snd (updateFiles_request False m)) = files m \<and>
   (r_eTag r = eTag m \<longrightarrow>
      eTag (updateFiles lc False (Some r) m) = eTag m \<and>
      files (updateFiles lc False (Some r) m) = files m \<and>
      RedrawFiles \<notin> set (drop (length (effects m)) (effects (updateFiles lc False (Some r) m))) \<and>
      ClearFiles \<notin> set (drop (length (effects m)) (effects (updateFiles lc False (Some r) m)))) \<and>
   (r_eTag r \<noteq> eTag m \<and> map_of (storages m) (property_key (origin m)) \<noteq> None \<longrightarrow>
      eTag (updateFiles lc False (Some r) m) = r_eTag r \<and>
      files (updateFiles lc False (Some r) m)
        = (if filesNode m then
             (case sortFiles lc (sort_meta m) (r_files r) of
                Inr ys \<Rightarrow> ys | Inl e \<Rightarrow> r_files r)
           else r_files r) \<and>
      drop (length (effects m) + 1) (effects (updateFiles lc False (Some r) m))
        = [ClearFiles, RedrawFiles])"
  by (auto simp: updateFiles_def updateFiles_request_def updateFiles_then_def redrawFiles_def
      clearFiles_def emit_def Let_def split: option.splits sum.splits)

text \<open>
  C7, as amended. A forced file poll for a selected, cached storage discards the stored
  ETag before the request (the request carries \<open>null\<close>), and every response whose
  ETag is not \<open>null\<close> is applied, whatever ETag was stored before: the response's
  ETag and files are stored (the files sorted in place by the redraw when the list
  element exists and the sort returns) and the list is cleared and redrawn.
\<close>

theorem updateFiles_force_applies_tagged_response:
  assumes "map_of (storages m) (property_key (origin m)) = Some st"
    and "r_eTag r \<noteq> ENull"
  shows "fst (updateFiles_request True m) = Some ENull \<and>
         eTag (snd (updateFiles_request True m)) = ENull \<and>
         eTag (updateFiles lc True (Some r) m) = r_eTag r \<and>
         files (updateFiles lc True (Some r) m)
           = (if filesNode m then
                (case sortFiles lc (sort_meta m) (r_files r) of
                   Inr ys \<Rightarrow> ys | Inl e \<Rightarrow> r_files r)
              else r_files r) \<and>
         drop (length (effects m) + 2) (effects (updateFiles lc True (Some r) m))
           = [ClearFiles, RedrawFiles]"
  using assms
  by (simp add: updateFiles_def updateFiles_request_def updateFiles_then_def redrawFiles_def
      clearFiles_def initUpload_def emit_def Let_def split: sum.splits)

subsection \<open>Concrete polls\<close>

text \<open>
  Concrete states for evaluation: a storage-list entry; the page after its first storage
  poll, which reports \<open>LOCAL\<close> available and \<open>USB\<close> not; and the same page after the
  response to the file request that the selection of \<open>LOCAL\<close> has sent.
\<close>

definition ex_entry :: "string \<Rightarrow> string \<Rightarrow> bool \<Rightarrow> entry" where
  "ex_entry ty nm av =
     \<lparr>e_type = ty, e_name = nm, e_path = ''/'' @ nm, e_available = av, e_ro = False,
      e_free_space = 100, e_total_space = 200\<rparr>"

definition ex_selected :: world where
  "ex_selected =
     updateStorage False
       (Some [ex_entry ''LOCAL'' ''local'' True, ex_entry ''USB'' ''usb'' False]) initial"


definition ex_loaded :: world where
  "ex_loaded =
     updateFiles_then by_length ENull \<lparr>r_eTag = ETag ''abc'', r_files = [ex_f2]\<rparr> ex_selected"


lemmas ex_defs = ex_entry_def storageData_of_def processEntry_def first_available_key_def
  cached_available_def object_keys_def is_array_index_def digit_value_def decimal_value_def
  selectStorage_def updateFiles_request_def initUpload_def clearFiles_def emit_def
  updateStorage_def initial_def truthy_origin_def property_key_def Let_def

lemma ex_selected_eq:
  "ex_selected =
     \<lparr>origin = OStr ''LOCAL'', current_path = [''local''],
      storages = [(''LOCAL'', storageData_of (ex_entry ''LOCAL'' ''local'' True)),
                  (''USB'', storageData_of (ex_entry ''USB'' ''usb'' False))],
      files = [], eTag = ENull,
      sort_meta = \<lparr>sort_field = ''date'', sort_order = ''desc''\<rparr>,
      filesNode = True,
      effects = [ClearFiles, ClearFiles, InitUpload ''local'' [] False,
                 FileRequest ''/api/files/path/local'' ENull, StorageUpdate (OStr ''LOCAL'') True],
      uncaught = []\<rparr>"
  by (simp add: ex_selected_def ex_defs)

lemma ex_loaded_eq:
  "ex_loaded = ex_selected\<lparr>eTag := ETag ''abc'', files := [ex_f2],
       effects := effects ex_selected @ [ClearFiles, RedrawFiles]\<rparr>"
  by (simp add: ex_loaded_def ex_selected_eq updateFiles_then_def redrawFiles_def clearFiles_def
      emit_def Let_def sortFiles_def array_sort_def)

lemma origin_available_initial: "origin_available initial"
  by (simp add: origin_available_def initial_def)

text \<open>
  An unforced poll on the loaded page whose response repeats the stored ETag with other
  files: the cached files stay.
\<close>

theorem updateFiles_applies_iff_captured_etag_differs_witness:
  "r_eTag \<lparr>r_eTag = ETag ''abc'', r_files = [ex_f1]\<rparr> = eTag ex_loaded \<and>
   updateFiles_then by_length (ETag ''abc'') \<lparr>r_eTag = ETag ''abc'', r_files = [ex_f1]\<rparr>
     ex_loaded = ex_loaded \<and>
   files (updateFiles by_length False (Some \<lparr>r_eTag = ETag ''abc'', r_files = [ex_f1]\<rparr>) ex_loaded)
     = [ex_f2] \<and>
   eTag (updateFiles by_length False (Some \<lparr>r_eTag = ETag ''abc'', r_files = [ex_f1]\<rparr>) ex_loaded)
     = ETag ''abc''"
proof -
  have h: "r_eTag \<lparr>r_eTag = ETag ''abc'', r_files = [ex_f1]\<rparr> = eTag ex_loaded"
    by (simp add: ex_loaded_eq)
  have h': "r_eTag \<lparr>r_eTag = ETag ''abc'', r_files = [ex_f1]\<rparr> = ETag ''abc''"
    by simp
  note t = updateFiles_applies_iff_captured_etag_differs
    [of "\<lparr>r_eTag = ETag ''abc'', r_files = [ex_f1]\<rparr>" _ by_length ex_loaded]
  note t1 = t [of "ETag ''abc''", THEN conjunct1, rule_format, OF h']
  note t6 = t [of "ETag ''abc''", THEN conjunct2, THEN conjunct2, THEN conjunct2,
      THEN conjunct2, THEN conjunct2, THEN conjunct1, rule_format, OF h]
  from t1 t6 h show ?thesis
    by (simp add: ex_loaded_eq)
qed

text \<open>
  C3, as stated, fails. Two unforced polls are sent from the loaded page before either
  response arrives; both capture the stored ETag \<open>abc\<close>. The files on the printer
  have changed, and both responses carry the ETag \<open>def\<close>. The first response is
  applied and \<open>def\<close> is stored. The second response carries the ETag that is now
  stored in the metadata, and the list is cleared and redrawn again.
\<close>

definition ex_overlap :: world where
  "ex_overlap =
     updateFiles_then by_length (ETag ''abc'') \<lparr>r_eTag = ETag ''def'', r_files = [ex_f1]\<rparr>
       (snd (updateFiles_request False (snd (updateFiles_request False ex_loaded))))"

theorem overlapping_polls_redraw_counterexample:
  "fst (updateFiles_request False ex_loaded) = Some (ETag ''abc'') \<and>
   fst (updateFiles_request False (snd (updateFiles_request False ex_loaded)))
     = Some (ETag ''abc'') \<and>
   r_eTag \<lparr>r_eTag = ETag ''def'', r_files = [ex_f1]\<rparr> = eTag ex_overlap \<and>
   effects (updateFiles_then by_length (ETag ''abc'')
              \<lparr>r_eTag = ETag ''def'', r_files = [ex_f1]\<rparr> ex_overlap)
     = effects ex_overlap @ [ClearFiles, RedrawFiles]"
  by (simp add: ex_overlap_def ex_loaded_eq ex_selected_eq updateFiles_request_def
      updateFiles_then_def redrawFiles_def clearFiles_def emit_def property_key_def Let_def
      sortFiles_def array_sort_def)

text \<open>Selecting the unavailable \<open>USB\<close> on the loaded page.\<close>

theorem selectStorage_unavailable_noop_witness:
  "map_of (storages ex_loaded) ''USB'' = Some (storageData_of (ex_entry ''USB'' ''usb'' False)) \<and>
   \<not> available (storageData_of (ex_entry ''USB'' ''usb'' False)) \<and>
   origin (selectStorage ''USB'' ex_loaded) = OStr ''LOCAL'' \<and>
   current_path (selectStorage ''USB'' ex_loaded) = [''local''] \<and>
   effects (selectStorage ''USB'' ex_loaded) = effects ex_loaded @ [ClearFiles]"
proof -
  have h1: "map_of (storages ex_loaded) ''USB''
      = Some (storageData_of (ex_entry ''USB'' ''usb'' False))"
    by (simp add: ex_loaded_eq ex_selected_eq)
  have h2: "\<not> available (storageData_of (ex_entry ''USB'' ''usb'' False))"
    by (simp add: storageData_of_def ex_entry_def)
  from selectStorage_unavailable_noop [OF h1 h2] h1 h2 show ?thesis
    by (simp add: ex_loaded_eq ex_selected_eq)
qed



text \<open>
  C7, as stated, fails. A forced poll on the loaded page whose response carries the ETag
  \<open>null\<close>: the request was sent with \<open>lastETag = null\<close>, the two are equal, and the
  response's files are not applied and nothing is redrawn.
\<close>

theorem forced_poll_null_etag_counterexample:
  "files (updateFiles by_length True (Some \<lparr>r_eTag = ENull, r_files = [ex_f1]\<rparr>) ex_loaded)
     = [ex_f2] \<and>
   RedrawFiles \<notin> set (drop (length (effects ex_loaded))
     (effects (updateFiles by_length True (Some \<lparr>r_eTag = ENull, r_files = [ex_f1]\<rparr>) ex_loaded)))"
  by (simp add: ex_loaded_eq ex_selected_eq updateFiles_def updateFiles_request_def
      updateFiles_then_def initUpload_def emit_def property_key_def Let_def)

text \<open>
  A forced poll on the loaded page whose response repeats the ETag that was stored
  before: its files are applied all the same.
\<close>

theorem updateFiles_force_applies_tagged_response_witness:
  "map_of (storages ex_loaded) (property_key (origin ex_loaded))
     = Some (storageData_of (ex_entry ''LOCAL'' ''local'' True)) \<and>
   files (updateFiles by_length True (Some \<lparr>r_eTag = ETag ''abc'', r_files = [ex_f1]\<rparr>) ex_loaded)
     = [ex_f1] \<and>
   eTag (updateFiles by_length True (Some \<lparr>r_eTag = ETag ''abc'', r_files = [ex_f1]\<rparr>) ex_loaded)
     = ETag ''abc''"
proof -
  have h1: "map_of (storages ex_loaded) (property_key (origin ex_loaded))
     = Some (storageData_of (ex_entry ''LOCAL'' ''local'' True))"
    by (simp add: ex_loaded_eq ex_selected_eq property_key_def)
  have h2: "r_eTag \<lparr>r_eTag = ETag ''abc'', r_files = [ex_f1]\<rparr> \<noteq> ENull"
    by simp
  from updateFiles_force_applies_tagged_response [OF h1 h2, of by_length] h1 show ?thesis
    by (simp add: ex_loaded_eq ex_selected_eq sortFiles_def array_sort_def)
qed



end
